theory Spec2Isabelle
  imports Complex_Main
begin

section \<open>Exceptions, outcomes and the event trace\<close>

text \<open>
  The orchestration code of \<^verbatim>\<open>bin/main_app.py\<close> is a sequence of calls to
  collaborators (GPIO, database, GPS managers, motor, radiometers, logger, clocks).
  Every effectful function of the model returns the list of events it caused together
  with its outcome: a normal return, a raised exception, or no return at all within
  the observed part of the run (a blocked call, or a loop that is still running).
  What a collaborator answers is a parameter of the model (an environment record).
\<close>

datatype exc =
    KeyboardInterrupt
  | SystemExit int
  | UnboundLocalError string
  | IndexError
  | TypeError
  | Error string

text \<open>\<^verbatim>\<open>except Exception\<close> catches every exception class of the model except
  \<^verbatim>\<open>KeyboardInterrupt\<close> and \<^verbatim>\<open>SystemExit\<close>, which derive from
  \<^verbatim>\<open>BaseException\<close> only.\<close>

fun is_Exception :: "exc \<Rightarrow> bool" where
  "is_Exception KeyboardInterrupt = False"
| "is_Exception (SystemExit n) = False"
| "is_Exception (UnboundLocalError v) = True"
| "is_Exception IndexError = True"
| "is_Exception TypeError = True"
| "is_Exception (Error m) = True"

text \<open>The exit status of the interpreter when an exception reaches the top level:
  the argument of \<^verbatim>\<open>sys.exit\<close>, and a non-zero status for every other exception.\<close>

fun exit_code :: "exc \<Rightarrow> int" where
  "exit_code (SystemExit n) = n"
| "exit_code e = 1"

datatype 'a outcome = Return 'a | Raise exc | Pending

datatype logmsg =
    StartedLogging
  | CheckGpsSettings
  | HomingMotor
  | HomingPoll
  | HomingDone
  | MotorInHome
  | InitException
  | InitComplete
  | SunInfo
  | AdjustMotor
  | MovingMotor
  | StatusLine
  | ProgramInterrupted
  | UnhandledException
  | StoppingRadiometry
  | StoppingDualGps
  | StoppingGpsManager
  | ThreadIdent nat
  | ActiveThreads

text \<open>One persisted row: the arguments of \<^verbatim>\<open>db_func.commit_db\<close> that the claims are
  about. \<open>rec_spec_data = None\<close> is Python's \<^verbatim>\<open>None\<close> (a metadata-only record).\<close>

record gps_manager =
  speed :: real
  satellite_number :: nat
  lat :: real
  lon :: real
  alt :: real
  datetime :: real

record db_record =
  rec_gps1 :: gps_manager
  rec_gps2 :: gps_manager
  rec_trigger_id :: real
  rec_bearing :: "real option"
  rec_solar_az :: real
  rec_solar_el :: real
  rec_spec_data :: "string list list option"

datatype event =
    DbInit
  | InitGpio nat
  | InitLogger
  | Comports
  | MotorInit | GpsInit | RadInit | SampleInit
  | GpsManagerStart nat
  | GpsCheckerStart
  | GetMotorPos
  | ReturnHome
  | RotateMotor int
  | MotorMoving
  | TriosManager
  | CheckGps | CheckSensors | CheckSun
  | CalculatePositions
  | CreateGpsDict nat
  | SampleAll real
  | CommitDb db_record
  | CursorClose
  | GpioOutputLow "nat list"
  | GpioCleanup
  | GpsManagerStop nat
  | ThreadJoin nat
  | Sleep real
  | Log logmsg

type_synonym 'a effect = "event list \<times> 'a outcome"

text \<open>Sequencing: the second computation runs only when the first one returns; the
  events of both are kept in order.\<close>

definition then_r :: "'a effect \<Rightarrow> ('a \<Rightarrow> 'b effect) \<Rightarrow> 'b effect" where
  "then_r m f =
     (case m of
        (tr, Return a) \<Rightarrow> (case f a of (tr', r) \<Rightarrow> (tr @ tr', r))
      | (tr, Raise e) \<Rightarrow> (tr, Raise e)
      | (tr, Pending) \<Rightarrow> (tr, Pending))"

definition seq_r :: "'a effect \<Rightarrow> 'b effect \<Rightarrow> 'b effect" where
  "seq_r m n = then_r m (\<lambda>_. n)"

text \<open>A call to a collaborator: the event is recorded when the call returns.\<close>

definition call :: "event \<Rightarrow> 'a outcome \<Rightarrow> 'a effect" where
  "call ev r = (case r of Return a \<Rightarrow> ([ev], Return a) | Raise e \<Rightarrow> ([], Raise e) | Pending \<Rightarrow> ([], Pending))"

definition emit :: "event \<Rightarrow> unit effect" where
  "emit ev = ([ev], Return ())"

definition pure :: "'a \<Rightarrow> 'a effect" where
  "pure a = ([], Return a)"

definition raise :: "exc \<Rightarrow> 'a effect" where
  "raise e = ([], Raise e)"

text \<open>Python list indexing with a non-negative index, and the read of a local variable
  that may not have been assigned yet (\<open>None\<close> is "unbound").\<close>

definition index :: "'a list \<Rightarrow> nat \<Rightarrow> 'a effect" where
  "index xs i = (if i < length xs then pure (xs ! i) else raise IndexError)"

definition lookup :: "string \<Rightarrow> 'a option \<Rightarrow> 'a effect" where
  "lookup name v = (case v of Some x \<Rightarrow> pure x | None \<Rightarrow> raise (UnboundLocalError name))"

section \<open>Teardown: \<^verbatim>\<open>stop_all\<close>\<close>

record db_dict =
  used :: bool

record thread =
  ident :: nat
  joins :: bool

text \<open>What the collaborators of \<^verbatim>\<open>stop_all\<close> answer. \<open>enumerate_r k\<close> is the list
  \<^verbatim>\<open>threading.enumerate()[1:]\<close> at the \<open>k\<close>-th call of \<^verbatim>\<open>threading.enumerate\<close>;
  \<open>joins t\<close> says whether \<^verbatim>\<open>t.join()\<close> returns.\<close>

record stop_env =
  cur_close_r :: "unit outcome"
  gpio_output_r :: "unit outcome"
  gpio_cleanup_r :: "unit outcome"
  gps_stop_r :: "nat \<Rightarrow> unit outcome"
  enumerate_r :: "nat \<Rightarrow> thread list"

definition pins :: "nat list" where
  "pins = [11, 12, 13, 15]"

fun stop_gps_managers :: "(nat \<Rightarrow> unit outcome) \<Rightarrow> nat list \<Rightarrow> unit effect" where
  "stop_gps_managers stop_r [] = pure ()"
| "stop_gps_managers stop_r (g # gs) =
     seq_r (emit (Log StoppingGpsManager))
    (seq_r (call (GpsManagerStop g) (stop_r g))
           (stop_gps_managers stop_r gs))"

fun join_all :: "thread list \<Rightarrow> unit effect" where
  "join_all [] = pure ()"
| "join_all (t # ts) =
     seq_r (emit (Log (ThreadIdent (ident t))))
    (seq_r (call (ThreadJoin (ident t)) (if joins t then Return () else Pending))
           (join_all ts))"

text \<open>The loop of lines 192-197. The first argument bounds the number of rounds that
  are observed; a wait that has not ended by then is \<open>Pending\<close>.\<close>

fun wait_threads :: "nat \<Rightarrow> (nat \<Rightarrow> thread list) \<Rightarrow> nat \<Rightarrow> unit effect" where
  "wait_threads 0 enum k = ([], Pending)"
| "wait_threads (Suc n) enum k =
     (if length (enum k) > 0 then
        seq_r (join_all (enum (k + 1)))
       (seq_r (emit (Log ActiveThreads))
       (seq_r (emit (Sleep 0.5))
              (wait_threads n enum (k + 2))))
      else pure ())"

text \<open>\<^verbatim>\<open>stop_all\<close>, lines 163-200. \<^verbatim>\<open>del(radiometry_manager)\<close> and
  \<^verbatim>\<open>del(gps_checker_manager)\<close> unbind two local names and call nothing. The last
  statement, \<^verbatim>\<open>sys.exit(0)\<close>, raises \<^verbatim>\<open>SystemExit(0)\<close>.\<close>

definition stop_all :: "stop_env \<Rightarrow> nat \<Rightarrow> db_dict \<Rightarrow> nat list \<Rightarrow> unit effect" where
  "stop_all se n db gps_managers =
     seq_r (if used db then call CursorClose (cur_close_r se) else pure ())
    (seq_r (call (GpioOutputLow pins) (gpio_output_r se))
    (seq_r (call GpioCleanup (gpio_cleanup_r se))
    (seq_r (emit (Log StoppingRadiometry))
    (seq_r (emit (Log StoppingDualGps))
    (seq_r (stop_gps_managers (gps_stop_r se) gps_managers)
    (seq_r (emit (Sleep 0.1))
    (seq_r (wait_threads n (enumerate_r se) 0)
           (raise (SystemExit 0)))))))))"

section \<open>The motor move-and-poll loop\<close>

text \<open>What the motor and \<^verbatim>\<open>time.clock()\<close> answer during one move: \<open>clock 0\<close> is the
  reading taken for \<^verbatim>\<open>t0\<close>, \<open>clock k\<close> the reading of the \<open>k\<close>-th loop test, and
  \<open>motor_moving_r k\<close> the answer of the \<open>k\<close>-th call of \<^verbatim>\<open>motor_func.motor_moving\<close>
  (the moving flag and the position, each \<open>None\<close> when unreadable).\<close>

record poll_env =
  clock :: "nat \<Rightarrow> real"
  motor_moving_r :: "nat \<Rightarrow> (bool option \<times> int option) outcome"

text \<open>The two loops of lines 143-148 (homing, \<^verbatim>\<open>time.sleep(1)\<close>) and 298-303 (tracking
  adjustment, \<^verbatim>\<open>time.sleep(2)\<close>) have the same body up to the log text and the sleep:
  \<^verbatim>\<open>while moving and time.clock()-t0 < 5\<close>, one call of \<^verbatim>\<open>motor_moving\<close>, a moving
  flag of \<^verbatim>\<open>None\<close> replaced by \<^verbatim>\<open>True\<close>, a log line, a sleep. The first argument
  bounds the number of polls that are observed.\<close>

fun poll_motor :: "nat \<Rightarrow> poll_env \<Rightarrow> logmsg \<Rightarrow> real \<Rightarrow> real \<Rightarrow> nat \<Rightarrow> bool \<Rightarrow> unit effect" where
  "poll_motor 0 pe msg interval t0 k moving = ([], Pending)"
| "poll_motor (Suc n) pe msg interval t0 k moving =
     (if moving \<and> clock pe k - t0 < 5 then
        (case motor_moving_r pe k of
           Return (m, p) \<Rightarrow>
             seq_r (emit MotorMoving)
            (seq_r (emit (Log msg))
            (seq_r (emit (Sleep interval))
                   (poll_motor n pe msg interval t0 (Suc k) (case m of None \<Rightarrow> True | Some b \<Rightarrow> b))))
         | Raise e \<Rightarrow> raise e
         | Pending \<Rightarrow> ([], Pending))
      else pure ())"

text \<open>The seconds spent in \<^verbatim>\<open>time.sleep\<close> by a trace.\<close>

fun slept :: "event list \<Rightarrow> real" where
  "slept [] = 0"
| "slept (Sleep d # tr) = d + slept tr"
| "slept (ev # tr) = slept tr"

section \<open>Initialisation: \<^verbatim>\<open>init_all\<close>\<close>

record motor_conf =
  home_pos :: int
  step_thresh :: int

text \<open>The handles that \<^verbatim>\<open>init_all\<close> returns, as far as the orchestration reads them:
  the database dictionary, the list of started GPS managers (each named by its port)
  and the motor dictionary. The radiometer and sampling dictionaries, the two managers
  and the logger are only passed on to collaborators.\<close>

record handles =
  db :: db_dict
  gps_managers :: "nat list"
  motor :: motor_conf

record init_env =
  db_init_r :: "db_dict outcome"
  init_gpio_r :: "unit outcome"
  init_logger_r :: "unit outcome"
  comports_r :: "unit outcome"
  motor_init_r :: "motor_conf outcome"
  gps_init_r :: "(string \<times> nat) list outcome"
  rad_init_r :: "unit outcome"
  sample_init_r :: "unit outcome"
  gps_start_r :: "nat \<Rightarrow> unit outcome"
  gps_checker_r :: "unit outcome"
  home_motor_pos_r :: "int option outcome"
  return_home_r :: "unit outcome"
  homing :: poll_env
  trios_manager_r :: "unit outcome"

fun starts_with :: "string \<Rightarrow> string \<Rightarrow> bool" where
  "starts_with [] s = True"
| "starts_with (c # p) [] = False"
| "starts_with (c # p) (d # s) = (c = d \<and> starts_with p s)"

fun contains :: "string \<Rightarrow> string \<Rightarrow> bool" where
  "contains p [] = (p = [])"
| "contains p (c # s) = (starts_with p (c # s) \<or> contains p s)"

text \<open>Line 117: the ports of the items of the GPS dictionary whose key contains
  \<^verbatim>\<open>'serial'\<close>.\<close>

definition gps_ports :: "(string \<times> nat) list \<Rightarrow> nat list" where
  "gps_ports gps = map snd (filter (\<lambda>(key, port). contains ''serial'' key) gps)"

text \<open>Lines 122-126: one manager is created and started per port and appended to the list.\<close>

fun start_gps_managers :: "(nat \<Rightarrow> unit outcome) \<Rightarrow> nat list \<Rightarrow> nat list \<Rightarrow> nat list effect" where
  "start_gps_managers start_r acc [] = pure acc"
| "start_gps_managers start_r acc (p # ps) =
     seq_r (call (GpsManagerStart p) (start_r p))
           (start_gps_managers start_r (acc @ [p]) ps)"

text \<open>Lines 137-151. An unreadable position (\<^verbatim>\<open>None\<close>) differs from the home position,
  so the motor is homed then too.\<close>

definition home_motor :: "nat \<Rightarrow> init_env \<Rightarrow> motor_conf \<Rightarrow> unit effect" where
  "home_motor n ie mc =
     then_r (call GetMotorPos (home_motor_pos_r ie)) (\<lambda>motor_pos.
       if motor_pos \<noteq> Some (home_pos mc) then
         seq_r (emit (Log HomingMotor))
        (seq_r (call ReturnHome (return_home_r ie))
        (seq_r (poll_motor n (homing ie) HomingPoll 1 (clock (homing ie) 0) 1 True)
               (emit (Log HomingDone))))
       else emit (Log MotorInHome))"

text \<open>\<^verbatim>\<open>init_all\<close>, lines 99-160. The name \<^verbatim>\<open>gps_managers\<close> is assigned in the
  branch \<^verbatim>\<open>len(gps_ports) > 0\<close> only; line 133 reads it in both cases.\<close>

definition init_all :: "nat \<Rightarrow> init_env \<Rightarrow> handles effect" where
  "init_all n ie =
     then_r (call DbInit (db_init_r ie)) (\<lambda>db_dict.
     seq_r (call (InitGpio 0) (init_gpio_r ie))
    (seq_r (call InitLogger (init_logger_r ie))
    (seq_r (emit (Log StartedLogging))
    (seq_r (call Comports (comports_r ie))
    (then_r (call MotorInit (motor_init_r ie)) (\<lambda>mc.
     then_r (call GpsInit (gps_init_r ie)) (\<lambda>gps.
     seq_r (call RadInit (rad_init_r ie))
    (seq_r (call SampleInit (sample_init_r ie))
    (then_r (if length (gps_ports gps) > 0
             then then_r (start_gps_managers (gps_start_r ie) [] (gps_ports gps)) (\<lambda>gs. pure (Some gs))
             else seq_r (emit (Log CheckGpsSettings)) (pure None)) (\<lambda>managers.
     seq_r (emit (Sleep 0.1))
    (then_r (lookup ''gps_managers'' managers) (\<lambda>gms.
     seq_r (call GpsCheckerStart (gps_checker_r ie))
    (seq_r (home_motor n ie mc)
    (seq_r (emit (Sleep 0.1))
    (seq_r (call TriosManager (trios_manager_r ie))
    (seq_r (emit (Sleep 0.1))
           (pure \<lparr>db = db_dict, gps_managers = gms, motor = mc\<rparr>)))))))))))))))))"

section \<open>One iteration of the main loop\<close>

text \<open>The settings read once by \<^verbatim>\<open>run\<close>: the two \<^verbatim>\<open>DEFAULT\<close> entries of the
  configuration and the reading of \<^verbatim>\<open>datetime.datetime.now()\<close> of line 222.\<close>

record run_conf =
  use_fixed_bearing :: bool
  fixed_bearing_deg :: int
  now_start :: real

text \<open>The local variables of \<^verbatim>\<open>run\<close> that live across iterations. Times are
  seconds (the value of \<^verbatim>\<open>timestamp()\<close>). For \<open>solar_az\<close>, \<open>solar_el\<close> and
  \<open>motor_ready\<close> the value \<open>None\<close> means that the name has not been assigned yet:
  \<^verbatim>\<open>run\<close> initialises \<^verbatim>\<open>solar_azi\<close> and \<^verbatim>\<open>solar_elev\<close> (lines 229-230), which it
  never reads, and does not initialise \<^verbatim>\<open>motor_ready\<close>. For \<open>trigger_id\<close> and
  \<open>ship_bearing_mean\<close> the value \<open>None\<close> is Python's \<^verbatim>\<open>None\<close>.\<close>

record locals =
  last_commit_time :: real
  trigger_id :: "real option"
  ship_bearing_mean :: "real option"
  solar_az :: "real option"
  solar_el :: "real option"
  motor_ready :: "bool option"
  counter :: nat

definition initial_locals :: "run_conf \<Rightarrow> locals" where
  "initial_locals rc =
     \<lparr>last_commit_time = now_start rc,
      trigger_id = None,
      ship_bearing_mean = (if use_fixed_bearing rc then Some (real_of_int (fixed_bearing_deg rc)) else None),
      solar_az = None,
      solar_el = None,
      motor_ready = None,
      counter = 0\<rparr>"

text \<open>Line 304 comes after lines 278 and 286: once \<^verbatim>\<open>motor_ready\<close> is assigned, so are
  \<^verbatim>\<open>solar_az\<close> and \<^verbatim>\<open>solar_el\<close>, and \<^verbatim>\<open>ship_bearing_mean\<close> is a number.\<close>

definition sun_bound :: "locals \<Rightarrow> bool" where
  "sun_bound l =
     (motor_ready l = None
      \<or> (solar_az l \<noteq> None \<and> solar_el l \<noteq> None \<and> ship_bearing_mean l \<noteq> None))"

text \<open>What the collaborators answer during one iteration. \<open>gps_state g\<close> holds the
  fields of GPS manager \<open>g\<close> as the iteration reads them; the four \<open>now_\<close> fields are the
  readings of \<^verbatim>\<open>datetime.datetime.now()\<close> of lines 327, 347, 356 and of the line after
  a commit (343 or 362). The readings of lines 263 and 349 only go into the status
  text. \<^verbatim>\<open>sample_all\<close> answers the trigger id, the spectra, the channel ids and the
  integration times, the last three already as the strings \<^verbatim>\<open>str\<close> makes of them.\<close>

record cycle_env =
  check_gps_r :: "bool outcome"
  check_sensors_r :: "bool outcome"
  gps_state :: "nat \<Rightarrow> gps_manager"
  get_motor_pos_r :: "int option outcome"
  mean_bearing :: "real option"
  calculate_positions_r :: "(real \<times> real \<times> int) outcome"
  check_sun_r :: "bool outcome"
  rotate_motor_r :: "unit outcome"
  tracking :: poll_env
  now_trigger :: real
  now_check :: real
  now_no_trigger :: real
  now_commit :: real
  sample_all_r :: "(real \<times> string list \<times> string list \<times> string list) outcome"
  commit_db_r :: "nat outcome"

text \<open>Lines 285-286 format \<^verbatim>\<open>ship_bearing_mean\<close> with \<^verbatim>\<open>{0:1.0f}\<close> for the status
  text: a bearing of \<^verbatim>\<open>None\<close> raises \<^verbatim>\<open>TypeError\<close>. The other values formatted there
  and in lines 280-283 are numbers in the model.\<close>

definition format_status :: "real option \<Rightarrow> unit effect" where
  "format_status bearing = (case bearing of None \<Rightarrow> raise TypeError | Some b \<Rightarrow> pure ())"

text \<open>Lines 254-304, the branch \<^verbatim>\<open>if gps_ready\<close>. The result \<open>None\<close> is the
  \<^verbatim>\<open>continue\<close> of line 265; otherwise the updated locals and \<^verbatim>\<open>sun_suitable\<close>.
  \<^verbatim>\<open>calculate_positions\<close> answers the solar azimuth, the solar elevation and
  \<^verbatim>\<open>motor_angles['target_motor_pos_step']\<close>.\<close>

definition gps_branch :: "nat \<Rightarrow> run_conf \<Rightarrow> handles \<Rightarrow> cycle_env \<Rightarrow> locals \<Rightarrow> (locals \<times> bool) option effect" where
  "gps_branch n rc h ce l =
     then_r (index (gps_managers h) 0) (\<lambda>g0.
     then_r (index (gps_managers h) 1) (\<lambda>g1.
     then_r (call GetMotorPos (get_motor_pos_r ce)) (\<lambda>motor_pos.
       case motor_pos of
         None \<Rightarrow> seq_r (emit (Sleep 5)) (pure None)
       | Some pos \<Rightarrow>
           (let bearing = (if use_fixed_bearing rc then ship_bearing_mean l else mean_bearing ce) in
            then_r (call CalculatePositions (calculate_positions_r ce)) (\<lambda>(az, el, target_pos).
            seq_r (emit (Log SunInfo))
           (seq_r (format_status bearing)
           (then_r (call CheckSun (check_sun_r ce)) (\<lambda>sun_suitable.
            seq_r (if sun_suitable \<and> \<bar>target_pos - pos\<bar> > step_thresh (motor h) then
                     seq_r (emit (Log AdjustMotor))
                    (seq_r (call (RotateMotor target_pos) (rotate_motor_r ce))
                           (poll_motor n (tracking ce) MovingMotor 2 (clock (tracking ce) 0) 1 True))
                   else pure ())
                  (pure (Some (l\<lparr>ship_bearing_mean := bearing, solar_az := Some az,
                                  solar_el := Some el, motor_ready := Some True\<rparr>,
                               sun_suitable)))))))))))"

text \<open>Lines 336-337: row \<open>n\<close> is made of \<^verbatim>\<open>sids[n]\<close>, \<^verbatim>\<open>itimes[n]\<close> and
  \<^verbatim>\<open>specs[n]\<close> for every \<open>n\<close> below \<^verbatim>\<open>len(sids)\<close>.\<close>

definition splice :: "string list \<Rightarrow> string list \<Rightarrow> string list \<Rightarrow> string list list effect" where
  "splice sids itimes specs =
     (if length itimes < length sids \<or> length specs < length sids then raise IndexError
      else pure (map (\<lambda>n. [sids ! n, itimes ! n, specs ! n]) [0..<length sids]))"

text \<open>Lines 326-344, the branch taken when all four checks are true.
  \<^verbatim>\<open>gps_func.create_gps_dict\<close> copies the fields of a GPS manager; the copy of manager
  \<open>g\<close> is \<open>gps_state ce g\<close>.\<close>

definition full_trigger :: "handles \<Rightarrow> cycle_env \<Rightarrow> locals \<Rightarrow> locals effect" where
  "full_trigger h ce l =
     then_r (index (gps_managers h) 0) (\<lambda>g0.
     seq_r (emit (CreateGpsDict g0))
    (then_r (index (gps_managers h) 1) (\<lambda>g1.
     seq_r (emit (CreateGpsDict g1))
    (then_r (call (SampleAll (now_trigger ce)) (sample_all_r ce)) (\<lambda>(trig_id, specs, sids, itimes).
     then_r (splice sids itimes specs) (\<lambda>spec_data.
       if used (db h) then
         then_r (lookup ''solar_az'' (solar_az l)) (\<lambda>az.
         then_r (lookup ''solar_el'' (solar_el l)) (\<lambda>el.
         seq_r (call (CommitDb \<lparr>rec_gps1 = gps_state ce g0, rec_gps2 = gps_state ce g1,
                                rec_trigger_id = now_trigger ce, rec_bearing = ship_bearing_mean l,
                                rec_solar_az = az, rec_solar_el = el,
                                rec_spec_data = Some spec_data\<rparr>) (commit_db_r ce))
               (pure (l\<lparr>trigger_id := Some (now_trigger ce), last_commit_time := now_commit ce\<rparr>))))
       else pure (l\<lparr>trigger_id := Some (now_trigger ce)\<rparr>)))))))"

text \<open>Lines 352-363, the branch that records metadata only.\<close>

definition heartbeat :: "handles \<Rightarrow> cycle_env \<Rightarrow> locals \<Rightarrow> locals effect" where
  "heartbeat h ce l =
     then_r (index (gps_managers h) 0) (\<lambda>g0.
     seq_r (emit (CreateGpsDict g0))
    (then_r (index (gps_managers h) 1) (\<lambda>g1.
     seq_r (emit (CreateGpsDict g1))
      (if used (db h) then
         then_r (lookup ''solar_az'' (solar_az l)) (\<lambda>az.
         then_r (lookup ''solar_el'' (solar_el l)) (\<lambda>el.
         seq_r (call (CommitDb \<lparr>rec_gps1 = gps_state ce g0, rec_gps2 = gps_state ce g1,
                                rec_trigger_id = now_no_trigger ce, rec_bearing = ship_bearing_mean l,
                                rec_solar_az = az, rec_solar_el = el,
                                rec_spec_data = None\<rparr>) (commit_db_r ce))
               (pure (l\<lparr>last_commit_time := now_commit ce\<rparr>))))
       else pure l))))"

text \<open>Lines 325-363. Building the list \<^verbatim>\<open>[gps_ready, motor_ready, rad_ready, sun_suitable]\<close>
  reads \<^verbatim>\<open>motor_ready\<close> whatever the other three are.\<close>

definition measurement :: "handles \<Rightarrow> cycle_env \<Rightarrow> locals \<Rightarrow> bool \<Rightarrow> bool \<Rightarrow> bool \<Rightarrow> locals effect" where
  "measurement h ce l gps_ready rad_ready sun_suitable =
     then_r (lookup ''motor_ready'' (motor_ready l)) (\<lambda>ready.
       if gps_ready \<and> ready \<and> rad_ready \<and> sun_suitable then full_trigger h ce l
       else if \<bar>now_check ce - last_commit_time l\<bar> < 60 then pure l
       else heartbeat h ce l)"

text \<open>The body of the \<^verbatim>\<open>try\<close> statement, lines 246-366.\<close>

definition cycle_body :: "nat \<Rightarrow> run_conf \<Rightarrow> handles \<Rightarrow> cycle_env \<Rightarrow> locals \<Rightarrow> locals effect" where
  "cycle_body n rc h ce l =
     then_r (call CheckGps (check_gps_r ce)) (\<lambda>gps_ready.
     then_r (call CheckSensors (check_sensors_r ce)) (\<lambda>rad_ready.
     then_r (if gps_ready then gps_branch n rc h ce l else pure (Some (l, False))) (\<lambda>b.
       case b of
         None \<Rightarrow> pure l
       | Some (l', sun_suitable) \<Rightarrow>
           then_r (measurement h ce l' gps_ready rad_ready sun_suitable) (\<lambda>l''.
           seq_r (emit (Log StatusLine))
          (seq_r (emit (Sleep 5))
                 (pure l''))))))"

text \<open>One iteration with its two handlers, lines 243-374. \<^verbatim>\<open>stop_all\<close> ends by raising
  \<^verbatim>\<open>SystemExit\<close>, so what follows it in a handler (the next iteration after line 370,
  the \<^verbatim>\<open>raise\<close> of line 374) runs only if \<^verbatim>\<open>stop_all\<close> returns; the model gives
  that continuation the locals of the start of the iteration.\<close>

definition cycle :: "nat \<Rightarrow> run_conf \<Rightarrow> handles \<Rightarrow> stop_env \<Rightarrow> cycle_env \<Rightarrow> locals \<Rightarrow> locals effect" where
  "cycle n rc h se ce l =
     (case cycle_body n rc h ce (l\<lparr>counter := counter l + 1\<rparr>) of
        (tr, Return l') \<Rightarrow> (tr, Return l')
      | (tr, Pending) \<Rightarrow> (tr, Pending)
      | (tr, Raise e) \<Rightarrow>
          (if e = KeyboardInterrupt then
             seq_r (tr, Return ())
            (seq_r (emit (Log ProgramInterrupted))
            (seq_r (stop_all se n (db h) (gps_managers h))
                   (pure (l\<lparr>counter := counter l + 1\<rparr>))))
           else if is_Exception e then
             seq_r (tr, Return ())
            (seq_r (emit (Log UnhandledException))
            (seq_r (stop_all se n (db h) (gps_managers h))
                   (raise e)))
           else (tr, Raise e)))"

section \<open>The program: \<^verbatim>\<open>run\<close>\<close>

text \<open>The records that a trace persisted, in order.\<close>

fun commits :: "event list \<Rightarrow> db_record list" where
  "commits [] = []"
| "commits (CommitDb r # tr) = r # commits tr"
| "commits (ev # tr) = commits tr"

text \<open>The readings of \<^verbatim>\<open>datetime.datetime.now()\<close> of a run never decrease: the four
  readings of an iteration are in the order of their lines (327, 347, 356, and 343 or
  362 after a commit), none is below \<open>t\<close>, and the next iteration starts no earlier.\<close>

fun clock_ordered :: "real \<Rightarrow> cycle_env list \<Rightarrow> bool" where
  "clock_ordered t [] = True"
| "clock_ordered t (ce # ces) =
     (t \<le> now_trigger ce \<and> now_trigger ce \<le> now_check ce \<and> now_check ce \<le> now_no_trigger ce
      \<and> now_no_trigger ce \<le> now_commit ce \<and> clock_ordered (now_commit ce) ces)"

text \<open>What one iteration that starts with \<^verbatim>\<open>last_commit_time = t\<close> may persist: nothing,
  and then \<^verbatim>\<open>last_commit_time\<close> is unchanged if the iteration completes; or one record,
  and then the iteration completes with \<^verbatim>\<open>last_commit_time\<close> set to the reading taken
  after the commit, the record being either a full one that carries the reading of line
  327 or a metadata-only one that carries the reading of line 356 and was written
  because the reading of line 347 is 60 s or more away from \<open>t\<close>.\<close>

definition step_commits :: "cycle_env \<Rightarrow> real \<Rightarrow> event list \<Rightarrow> locals outcome \<Rightarrow> bool" where
  "step_commits ce t tr out =
     (case commits tr of
        [] \<Rightarrow> (case out of Return l' \<Rightarrow> last_commit_time l' = t | Raise e \<Rightarrow> True | Pending \<Rightarrow> True)
      | [rec] \<Rightarrow>
          (case out of
             Return l' \<Rightarrow>
               last_commit_time l' = now_commit ce
               \<and> (if rec_spec_data rec = None
                   then rec_trigger_id rec = now_no_trigger ce \<and> 60 \<le> \<bar>now_check ce - t\<bar>
                   else rec_trigger_id rec = now_trigger ce)
           | Raise e \<Rightarrow> False
           | Pending \<Rightarrow> False)
      | rec # rec' # recs \<Rightarrow> False)"

text \<open>The \<^verbatim>\<open>while True\<close> loop of line 242, for as many iterations as there are
  environments in the list; a loop that is still running after them is \<open>Pending\<close>.\<close>

fun main_loop :: "nat \<Rightarrow> run_conf \<Rightarrow> handles \<Rightarrow> stop_env \<Rightarrow> cycle_env list \<Rightarrow> locals \<Rightarrow> unit effect" where
  "main_loop n rc h se [] l = ([], Pending)"
| "main_loop n rc h se (ce # ces) l =
     (case cycle n rc h se ce l of
        (tr, Return l') \<Rightarrow> (case main_loop n rc h se ces l' of (tr', r) \<Rightarrow> (tr @ tr', r))
      | (tr, Raise e) \<Rightarrow> (tr, Raise e)
      | (tr, Pending) \<Rightarrow> (tr, Pending))"

text \<open>The handler of lines 216-219. The names \<^verbatim>\<open>log\<close>, \<^verbatim>\<open>db_dict\<close>,
  \<^verbatim>\<open>radiometry_manager\<close>, \<^verbatim>\<open>gps_managers\<close> and \<^verbatim>\<open>gps_checker_manager\<close> are local
  to \<^verbatim>\<open>run\<close> and are assigned by line 215 only, all at once, when \<^verbatim>\<open>init_all\<close>
  returns; the argument \<open>bound\<close> is \<open>None\<close> while they are unassigned. The handler
  reads \<^verbatim>\<open>log\<close> first.\<close>

definition init_failure :: "nat \<Rightarrow> stop_env \<Rightarrow> handles option \<Rightarrow> exc \<Rightarrow> unit effect" where
  "init_failure n se bound e =
     then_r (lookup ''log'' bound) (\<lambda>h.
     seq_r (emit (Log InitException))
    (seq_r (stop_all se n (db h) (gps_managers h))
           (raise e)))"

text \<open>\<^verbatim>\<open>run\<close>, lines 203-374, after the command line and the configuration file have
  been read. The outcome \<open>Raise e\<close> is the exception that ends the process.\<close>

definition run :: "nat \<Rightarrow> run_conf \<Rightarrow> init_env \<Rightarrow> stop_env \<Rightarrow> cycle_env list \<Rightarrow> unit effect" where
  "run n rc ie se ces =
     (case init_all n ie of
        (tr, Return h) \<Rightarrow>
          seq_r (tr, Return ())
         (seq_r (emit (Log InitComplete))
                (main_loop n rc h se ces (initial_locals rc)))
      | (tr, Raise e) \<Rightarrow>
          (if is_Exception e then seq_r (tr, Return ()) (init_failure n se None e)
           else (tr, Raise e))
      | (tr, Pending) \<Rightarrow> (tr, Pending))"

section \<open>Concrete environments\<close>

text \<open>A run in which every collaborator returns: two GPS ports are found, the motor is
  at its home position, the database is in use, and in each iteration both GPS fixes,
  the radiometers and the sun are fine. The inputs of the theorems below vary it.\<close>

definition poll_ok :: poll_env where
  "poll_ok = \<lparr>clock = (\<lambda>k. real k), motor_moving_r = (\<lambda>k. Return (Some False, Some 0))\<rparr>"

definition init_ok :: init_env where
  "init_ok =
     \<lparr>db_init_r = Return \<lparr>used = True\<rparr>, init_gpio_r = Return (), init_logger_r = Return (),
      comports_r = Return (), motor_init_r = Return \<lparr>home_pos = 0, step_thresh = 100\<rparr>,
      gps_init_r = Return [(''serial1'', 1), (''serial2'', 2), (''baud'', 3)],
      rad_init_r = Return (), sample_init_r = Return (), gps_start_r = (\<lambda>p. Return ()),
      gps_checker_r = Return (), home_motor_pos_r = Return (Some 0), return_home_r = Return (),
      homing = poll_ok, trios_manager_r = Return ()\<rparr>"

definition stop_ok :: stop_env where
  "stop_ok =
     \<lparr>cur_close_r = Return (), gpio_output_r = Return (), gpio_cleanup_r = Return (),
      gps_stop_r = (\<lambda>g. Return ()), enumerate_r = (\<lambda>k. [])\<rparr>"

definition rc_ok :: run_conf where
  "rc_ok = \<lparr>use_fixed_bearing = False, fixed_bearing_deg = 0, now_start = 1000\<rparr>"

definition handles_ok :: handles where
  "handles_ok = \<lparr>db = \<lparr>used = True\<rparr>, gps_managers = [1, 2], motor = \<lparr>home_pos = 0, step_thresh = 100\<rparr>\<rparr>"

definition fix_ok :: gps_manager where
  "fix_ok = \<lparr>speed = 3, satellite_number = 9, lat = 50, lon = -4, alt = 10, datetime = 1000\<rparr>"

definition cycle_ok :: cycle_env where
  "cycle_ok =
     \<lparr>check_gps_r = Return True, check_sensors_r = Return True, gps_state = (\<lambda>g. fix_ok),
      get_motor_pos_r = Return (Some 0), mean_bearing = Some 90,
      calculate_positions_r = Return (180, 40, 0), check_sun_r = Return True,
      rotate_motor_r = Return (), tracking = poll_ok,
      now_trigger = 1005, now_check = 1005, now_no_trigger = 1005, now_commit = 1006,
      sample_all_r = Return (1005, [''spec1'', ''spec2''], [''sid1'', ''sid2''], [''128'', ''256'']),
      commit_db_r = Return 1\<rparr>"

text \<open>The locals after a first iteration in environment \<open>cycle_ok\<close>, which triggers a
  measurement and commits it.\<close>

definition locals_ok :: locals where
  "locals_ok =
     \<lparr>last_commit_time = 1006, trigger_id = Some 1005, ship_bearing_mean = Some 90,
      solar_az = Some 180, solar_el = Some 40, motor_ready = Some True, counter = 1\<rparr>"

text \<open>An iteration in which the clock reads \<open>c\<close> (and \<open>c + 1\<close> after a commit), both GPS
  fixes and the sun are fine and the radiometers are not ready: the gate is false.\<close>

definition gated_at :: "real \<Rightarrow> cycle_env" where
  "gated_at c =
     cycle_ok\<lparr>check_sensors_r := Return False, now_trigger := c, now_check := c,
              now_no_trigger := c, now_commit := c + 1\<rparr>"



definition cpu_poll :: poll_env where
  "cpu_poll = \<lparr>clock = (\<lambda>k. real k / 1000), motor_moving_r = (\<lambda>k. Return (None, None))\<rparr>"

section \<open>Rules for sequencing\<close>

lemma then_r_simps [simp]:
  "then_r (tr, Return a) f = (tr @ fst (f a), snd (f a))"
  "then_r (tr, Raise e) f = (tr, Raise e)"
  "then_r (tr, Pending) f = (tr, Pending)"
  by (simp_all add: then_r_def split: prod.splits)

lemma seq_r_simps [simp]:
  "seq_r (tr, Return a) m = (tr @ fst m, snd m)"
  "seq_r (tr, Raise e) m = (tr, Raise e)"
  "seq_r (tr, Pending) m = (tr, Pending)"
  by (simp_all add: seq_r_def)

lemma call_simps [simp]:
  "call ev (Return a) = ([ev], Return a)"
  "call ev (Raise e) = ([], Raise e)"
  "call ev Pending = ([], Pending)"
  by (simp_all add: call_def)

lemmas eff_simps = emit_def pure_def raise_def index_def lookup_def

section \<open>Shutdown paths\<close>

text \<open>
  C1. The claim: on every startup and every shutdown path the output pins are forced
  OFF; \<^verbatim>\<open>init_all\<close> sets the pins LOW right after the database setup, and every exit
  path (manual interrupt, unhandled exception of an iteration, initialisation failure)
  reaches the pins-OFF step of \<^verbatim>\<open>stop_all\<close>.

  The code at an initialisation failure: when \<^verbatim>\<open>motor_init\<close> raises, the handler of
  lines 216-219 reads \<^verbatim>\<open>log\<close>, which line 215 never assigned, and ends with
  \<^verbatim>\<open>UnboundLocalError\<close>: \<^verbatim>\<open>stop_all\<close> is not called and the trace of the whole run
  holds no \<^verbatim>\<open>GPIO.output(pins, GPIO.LOW)\<close>.
\<close>

theorem run_init_failure_skips_stop_all:
  "run 10 rc_ok (init_ok\<lparr>motor_init_r := Raise (Error ''motor not found'')\<rparr>) stop_ok []
     = ([DbInit, InitGpio 0, InitLogger, Log StartedLogging, Comports],
        Raise (UnboundLocalError ''log''))"
  by (simp add: run_def init_all_def init_failure_def init_ok_def eff_simps)

text \<open>
  C2. The claim: the exit code is 0 after a manual interrupt and non-zero after any other
  exception of an iteration, which is re-raised after the teardown.

  The code, when \<^verbatim>\<open>check_gps\<close> raises an ordinary exception in the first iteration and
  every teardown step returns: \<^verbatim>\<open>stop_all\<close> ends with \<^verbatim>\<open>sys.exit(0)\<close>, the
  \<^verbatim>\<open>raise\<close> of line 374 is not reached, and the process ends with \<^verbatim>\<open>SystemExit(0)\<close>,
  exit code 0, after the pins were set LOW.
\<close>

theorem run_cycle_exception_exits_zero:
  "snd (run 10 rc_ok init_ok stop_ok [cycle_ok\<lparr>check_gps_r := Raise (Error ''gps'')\<rparr>])
     = Raise (SystemExit 0)
   \<and> exit_code (SystemExit 0) = 0
   \<and> GpioOutputLow pins \<in> set (fst (run 10 rc_ok init_ok stop_ok [cycle_ok\<lparr>check_gps_r := Raise (Error ''gps'')\<rparr>]))"
  by (simp add: run_def init_all_def init_failure_def init_ok_def eff_simps gps_ports_def
      home_motor_def cycle_def cycle_body_def cycle_ok_def stop_all_def stop_ok_def
      initial_locals_def rc_ok_def numeral_eq_Suc)

section \<open>The readiness gate\<close>

text \<open>
  C5. The claim: every iteration computes the four readiness predicates afresh,
  \<^verbatim>\<open>motor_ready\<close> being true exactly when the motor position was readable in that
  iteration, and the gate is the conjunction of the four.

  The code in the first iteration when \<^verbatim>\<open>check_gps\<close> answers \<^verbatim>\<open>False\<close>: the branch
  that assigns \<^verbatim>\<open>motor_ready\<close> (line 304, the only assignment) is skipped, and line
  325 raises \<^verbatim>\<open>UnboundLocalError\<close> instead of finding the gate false.
\<close>

theorem cycle_body_motor_ready_unbound:
  "cycle_body 10 rc_ok handles_ok (cycle_ok\<lparr>check_gps_r := Return False\<rparr>) (initial_locals rc_ok)
     = ([CheckGps, CheckSensors], Raise (UnboundLocalError ''motor_ready''))"
  by (simp add: cycle_body_def cycle_ok_def measurement_def initial_locals_def eff_simps)

section \<open>GPS monitors at initialisation\<close>

text \<open>
  C9. The claim: one GPS monitor thread is started per discovered GPS port, and with no
  port discovered the system logs a warning, completes the initialisation and reports
  \<^verbatim>\<open>gps_ready = false\<close> from then on.

  The code when the GPS dictionary has no key containing \<^verbatim>\<open>'serial'\<close>: after the log
  line of line 128, line 133 reads \<^verbatim>\<open>gps_managers\<close>, which only the other branch
  assigns, and \<^verbatim>\<open>init_all\<close> ends with \<^verbatim>\<open>UnboundLocalError\<close>.
\<close>

theorem init_all_no_gps_port:
  "init_all 10 (init_ok\<lparr>gps_init_r := Return [(''baud'', 3)]\<rparr>)
     = ([DbInit, InitGpio 0, InitLogger, Log StartedLogging, Comports, MotorInit, GpsInit,
         RadInit, SampleInit, Log CheckGpsSettings, Sleep 0.1],
        Raise (UnboundLocalError ''gps_managers''))"
  by (simp add: init_all_def init_ok_def eff_simps gps_ports_def)

section \<open>Teardown\<close>


lemma seq_r_no_return:
  assumes "\<forall>u. snd k \<noteq> Return u"
  shows "\<forall>u. snd (seq_r m k) \<noteq> Return u"
proof (cases m)
  case (Pair tr r)
  with assms show ?thesis by (cases r) simp_all
qed

text \<open>\<^verbatim>\<open>stop_all\<close> never returns to its caller: it raises or it does not end.\<close>

lemma stop_all_no_return: "\<forall>u. snd (stop_all se n d gms) \<noteq> Return u"
  unfolding stop_all_def by (intro seq_r_no_return) (simp add: raise_def)




section \<open>Locals along a run\<close>

lemma snd_then_r_Return:
  "snd (then_r m f) = Return b \<longleftrightarrow> (\<exists>a. snd m = Return a \<and> snd (f a) = Return b)"
  by (cases m; cases "snd m") (auto simp add: then_r_def split: prod.splits)

lemma snd_seq_r_Return:
  "snd (seq_r m k) = Return b \<longleftrightarrow> (\<exists>a. snd m = Return a) \<and> snd k = Return b"
  by (simp add: seq_r_def snd_then_r_Return)

lemma snd_call_Return: "snd (call ev r) = Return a \<longleftrightarrow> r = Return a"
  by (cases r) simp_all

lemma snd_format_status_Return: "snd (format_status b) = Return u \<longleftrightarrow> b \<noteq> None"
  by (cases b) (simp_all add: format_status_def eff_simps)

lemma initial_sun_bound: "sun_bound (initial_locals rc)"
  by (simp add: sun_bound_def initial_locals_def)

lemma measurement_sun_bound:
  "snd (measurement h ce l g r s) = Return l' \<Longrightarrow> sun_bound l \<Longrightarrow> sun_bound l'"
  by (auto simp add: measurement_def full_trigger_def heartbeat_def sun_bound_def eff_simps
      snd_then_r_Return snd_seq_r_Return snd_call_Return split: if_splits option.splits prod.splits)

lemma gps_branch_sun_bound:
  "snd (gps_branch n rc h ce l) = Return (Some (l', s)) \<Longrightarrow> sun_bound l'"
  by (auto simp add: gps_branch_def sun_bound_def eff_simps Let_def snd_format_status_Return
      snd_then_r_Return snd_seq_r_Return snd_call_Return split: if_splits option.splits prod.splits)

text \<open>Every iteration that completes keeps the relation, so the metadata-only branch
  never finds \<^verbatim>\<open>solar_az\<close> or \<^verbatim>\<open>solar_el\<close> unassigned once it passed line 325, and
  the bearing it records is a number.\<close>

lemma cycle_body_sun_bound:
  assumes "snd (cycle_body n rc h ce l) = Return l'" and "sun_bound l"
  shows "sun_bound l'"
proof -
  from assms(1) obtain g r b where
    b: "snd (if g then gps_branch n rc h ce l else pure (Some (l, False))) = Return b"
    and rest: "snd (case b of None \<Rightarrow> pure l
         | Some (l1, s) \<Rightarrow> then_r (measurement h ce l1 g r s)
             (\<lambda>l2. seq_r (emit (Log StatusLine)) (seq_r (emit (Sleep 5)) (pure l2)))) = Return l'"
    by (auto simp add: cycle_body_def snd_then_r_Return)
  show ?thesis
  proof (cases b)
    case None
    with rest assms(2) show ?thesis by (simp add: pure_def)
  next
    case (Some p)
    obtain l1 s where p: "p = (l1, s)" by (cases p)
    from b Some p assms(2) have "sun_bound l1"
      by (auto simp add: pure_def split: if_splits dest: gps_branch_sun_bound)
    moreover from rest Some p have "snd (measurement h ce l1 g r s) = Return l'"
      by (auto simp add: snd_then_r_Return snd_seq_r_Return eff_simps)
    ultimately show ?thesis by (rule measurement_sun_bound [rotated])
  qed
qed

text \<open>The locals \<open>locals_ok\<close> are those of a run after its first iteration.\<close>

lemma locals_ok_reachable:
  "snd (cycle 10 rc_ok handles_ok stop_ok cycle_ok (initial_locals rc_ok)) = Return locals_ok"
  by (simp add: cycle_def cycle_body_def gps_branch_def format_status_def measurement_def
      full_trigger_def splice_def eff_simps handles_ok_def cycle_ok_def initial_locals_def
      rc_ok_def locals_ok_def)

section \<open>The records of a run\<close>

lemma then_r_unfold:
  "then_r m f =
     (case snd m of
        Return a \<Rightarrow> (fst m @ fst (f a), snd (f a))
      | Raise e \<Rightarrow> (fst m, Raise e)
      | Pending \<Rightarrow> (fst m, Pending))"
  by (cases m; cases "snd m") (auto simp add: then_r_def split: prod.splits)

lemma seq_r_unfold:
  "seq_r m k =
     (case snd m of
        Return a \<Rightarrow> (fst m @ fst k, snd k)
      | Raise e \<Rightarrow> (fst m, Raise e)
      | Pending \<Rightarrow> (fst m, Pending))"
  by (simp add: seq_r_def then_r_unfold)

lemma commits_append [simp]: "commits (xs @ ys) = commits xs @ commits ys"
  by (induction xs rule: commits.induct) simp_all

lemma commits_then_r:
  "commits (fst m) = [] \<Longrightarrow> (\<And>a. commits (fst (f a)) = []) \<Longrightarrow> commits (fst (then_r m f)) = []"
  by (simp add: then_r_unfold split: outcome.splits)

lemma commits_seq_r:
  "commits (fst m) = [] \<Longrightarrow> commits (fst k) = [] \<Longrightarrow> commits (fst (seq_r m k)) = []"
  by (simp add: seq_r_unfold split: outcome.splits)

lemma commits_call: "commits [ev] = [] \<Longrightarrow> commits (fst (call ev r)) = []"
  by (cases r) simp_all

lemma commits_basic [simp]:
  "commits (fst (emit (Log m))) = []" "commits (fst (emit (Sleep d))) = []"
  "commits (fst (emit (CreateGpsDict g))) = []" "commits (fst (emit MotorMoving)) = []"
  "commits (fst (pure a)) = []" "commits (fst (raise e)) = []"
  "commits (fst (index xs i)) = []" "commits (fst (lookup v x)) = []"
  "commits (fst (format_status b)) = []"
  "commits (fst (splice sids itimes specs)) = []"
  by (simp_all add: eff_simps format_status_def splice_def split: option.splits)

lemmas commits_intros = commits_then_r commits_seq_r commits_call

lemma commits_poll_motor [simp]: "commits (fst (poll_motor n pe msg i t0 k moving)) = []"
proof (induction n arbitrary: k moving)
  case 0
  show ?case by simp
next
  case (Suc n)
  show ?case
    by (cases "motor_moving_r pe k") (auto simp add: Suc eff_simps intro!: commits_intros)
qed

lemma commits_gps_branch [simp]: "commits (fst (gps_branch n rc h ce l)) = []"
  unfolding gps_branch_def Let_def
  by (intro commits_intros) (auto split: option.splits prod.splits intro!: commits_intros)

lemma commits_stop_gps_managers [simp]: "commits (fst (stop_gps_managers stop_r gms)) = []"
  by (induction gms) (auto intro!: commits_intros)

lemma commits_join_all [simp]: "commits (fst (join_all ts)) = []"
  by (induction ts) (auto intro!: commits_intros)

lemma commits_wait_threads [simp]: "commits (fst (wait_threads n enum k)) = []"
  by (induction n arbitrary: k) (auto intro!: commits_intros)

lemma commits_stop_all [simp]: "commits (fst (stop_all se n d gms)) = []"
  unfolding stop_all_def by (auto intro!: commits_intros)

lemma step_commits_cong:
  "commits tr = commits tr' \<Longrightarrow> step_commits ce t tr out = step_commits ce t tr' out"
  by (simp add: step_commits_def)

lemma step_commits_no_return [simp]:
  "commits tr = [] \<Longrightarrow> step_commits ce t tr (Raise e)"
  "commits tr = [] \<Longrightarrow> step_commits ce t tr Pending"
  by (simp_all add: step_commits_def)

lemma step_commits_then_r:
  assumes "commits (fst m) = []"
    and "\<And>a. snd m = Return a \<Longrightarrow> step_commits ce t (fst (f a)) (snd (f a))"
  shows "step_commits ce t (fst (then_r m f)) (snd (then_r m f))"
proof (cases "snd m")
  case (Return a)
  have "commits (fst m @ fst (f a)) = commits (fst (f a))" using assms(1) by simp
  from step_commits_cong [OF this] assms(2) [OF Return] Return show ?thesis
    by (simp add: then_r_unfold)
next
  case (Raise e)
  with assms(1) show ?thesis by (simp add: then_r_unfold)
next
  case Pending
  with assms(1) show ?thesis by (simp add: then_r_unfold)
qed

lemma step_commits_seq_r:
  "commits (fst m) = [] \<Longrightarrow> step_commits ce t (fst k) (snd k) \<Longrightarrow>
   step_commits ce t (fst (seq_r m k)) (snd (seq_r m k))"
  unfolding seq_r_def by (rule step_commits_then_r)

lemma step_commits_pure:
  "last_commit_time l' = t \<Longrightarrow> step_commits ce t (fst (pure l')) (snd (pure l'))"
  by (simp add: step_commits_def pure_def)

lemma step_commits_full:
  "rec_spec_data rec \<noteq> None \<Longrightarrow> rec_trigger_id rec = now_trigger ce \<Longrightarrow> last_commit_time l' = now_commit ce \<Longrightarrow>
   step_commits ce t (fst (seq_r (call (CommitDb rec) r) (pure l'))) (snd (seq_r (call (CommitDb rec) r) (pure l')))"
  by (cases r) (auto simp add: step_commits_def pure_def)

lemma step_commits_heartbeat:
  "rec_spec_data rec = None \<Longrightarrow> rec_trigger_id rec = now_no_trigger ce \<Longrightarrow> last_commit_time l' = now_commit ce \<Longrightarrow>
   60 \<le> \<bar>now_check ce - t\<bar> \<Longrightarrow>
   step_commits ce t (fst (seq_r (call (CommitDb rec) r) (pure l'))) (snd (seq_r (call (CommitDb rec) r) (pure l')))"
  by (cases r) (auto simp add: step_commits_def pure_def)

lemma commit_or_not_full:
  assumes that: "\<And>az el. rec_spec_data (rec az el) \<noteq> None \<and> rec_trigger_id (rec az el) = now_trigger ce"
  shows "step_commits ce (last_commit_time l)
     (fst (if u then then_r (lookup x1 v1) (\<lambda>az. then_r (lookup x2 v2) (\<lambda>el.
                  seq_r (call (CommitDb (rec az el)) r) (pure (l\<lparr>trigger_id := t, last_commit_time := now_commit ce\<rparr>))))
           else pure (l\<lparr>trigger_id := t\<rparr>)))
     (snd (if u then then_r (lookup x1 v1) (\<lambda>az. then_r (lookup x2 v2) (\<lambda>el.
                  seq_r (call (CommitDb (rec az el)) r) (pure (l\<lparr>trigger_id := t, last_commit_time := now_commit ce\<rparr>))))
           else pure (l\<lparr>trigger_id := t\<rparr>)))"
proof (cases u)
  case True
  show ?thesis unfolding if_P [OF True]
    apply (rule step_commits_then_r, simp)
    apply (rule step_commits_then_r, simp)
    apply (rule step_commits_full)
    using that by simp_all
next
  case False
  then show ?thesis by (simp add: step_commits_pure)
qed

lemma commit_or_not_heartbeat:
  assumes that: "\<And>az el. rec_spec_data (rec az el) = None \<and> rec_trigger_id (rec az el) = now_no_trigger ce"
    "60 \<le> \<bar>now_check ce - last_commit_time l\<bar>"
  shows "step_commits ce (last_commit_time l)
     (fst (if u then then_r (lookup x1 v1) (\<lambda>az. then_r (lookup x2 v2) (\<lambda>el.
                  seq_r (call (CommitDb (rec az el)) r) (pure (l\<lparr>last_commit_time := now_commit ce\<rparr>))))
           else pure l))
     (snd (if u then then_r (lookup x1 v1) (\<lambda>az. then_r (lookup x2 v2) (\<lambda>el.
                  seq_r (call (CommitDb (rec az el)) r) (pure (l\<lparr>last_commit_time := now_commit ce\<rparr>))))
           else pure l))"
proof (cases u)
  case True
  show ?thesis unfolding if_P [OF True]
    apply (rule step_commits_then_r, simp)
    apply (rule step_commits_then_r, simp)
    apply (rule step_commits_heartbeat)
    using that by simp_all
next
  case False
  then show ?thesis by (simp add: step_commits_pure)
qed

lemma full_trigger_step_commits:
  "step_commits ce (last_commit_time l) (fst (full_trigger h ce l)) (snd (full_trigger h ce l))"
  unfolding full_trigger_def
  apply (rule step_commits_then_r, simp)
  apply (rule step_commits_seq_r, simp)
  apply (rule step_commits_then_r, simp)
  apply (rule step_commits_seq_r, simp)
  apply (rule step_commits_then_r, simp add: commits_call)
  apply (simp only: split_paired_all prod.case)
  apply (rule step_commits_then_r, simp)
  apply (rule commit_or_not_full)
  apply simp
  done

lemma heartbeat_step_commits:
  "60 \<le> \<bar>now_check ce - last_commit_time l\<bar> \<Longrightarrow>
   step_commits ce (last_commit_time l) (fst (heartbeat h ce l)) (snd (heartbeat h ce l))"
  unfolding heartbeat_def
  apply (rule step_commits_then_r, simp)
  apply (rule step_commits_seq_r, simp)
  apply (rule step_commits_then_r, simp)
  apply (rule step_commits_seq_r, simp)
  apply (rule commit_or_not_heartbeat)
  apply simp_all
  done

lemma measurement_step_commits:
  "step_commits ce (last_commit_time l) (fst (measurement h ce l g r s)) (snd (measurement h ce l g r s))"
  unfolding measurement_def
  apply (rule step_commits_then_r, simp)
  apply (simp add: full_trigger_step_commits heartbeat_step_commits step_commits_pure)
  done


lemma gps_branch_last_commit_time:
  "snd (gps_branch n rc h ce l) = Return (Some (l', s)) \<Longrightarrow> last_commit_time l' = last_commit_time l"
  by (auto simp add: gps_branch_def eff_simps Let_def
      snd_then_r_Return snd_seq_r_Return snd_call_Return split: if_splits option.splits prod.splits)

lemma step_commits_status_line:
  "step_commits ce (last_commit_time l)
     (fst (then_r m (\<lambda>l2. seq_r (emit (Log StatusLine)) (seq_r (emit (Sleep 5)) (pure l2)))))
     (snd (then_r m (\<lambda>l2. seq_r (emit (Log StatusLine)) (seq_r (emit (Sleep 5)) (pure l2)))))
   = step_commits ce (last_commit_time l) (fst m) (snd m)"
  by (cases "snd m") (simp_all add: then_r_unfold eff_simps step_commits_def)

lemma cycle_body_step_commits:
  "step_commits ce (last_commit_time l) (fst (cycle_body n rc h ce l)) (snd (cycle_body n rc h ce l))"
  unfolding cycle_body_def
proof (rule step_commits_then_r, simp add: commits_call, rule step_commits_then_r, simp add: commits_call,
    rule step_commits_then_r)
  fix g r
  show "commits (fst (if g then gps_branch n rc h ce l else pure (Some (l, False)))) = []"
    by simp
next
  fix g r b
  assume b: "snd (if g then gps_branch n rc h ce l else pure (Some (l, False))) = Return b"
  show "step_commits ce (last_commit_time l)
      (fst (case b of None \<Rightarrow> pure l
            | Some (l', sun_suitable) \<Rightarrow>
                then_r (measurement h ce l' g r sun_suitable)
                  (\<lambda>l''. seq_r (emit (Log StatusLine)) (seq_r (emit (Sleep 5)) (pure l'')))))
      (snd (case b of None \<Rightarrow> pure l
            | Some (l', sun_suitable) \<Rightarrow>
                then_r (measurement h ce l' g r sun_suitable)
                  (\<lambda>l''. seq_r (emit (Log StatusLine)) (seq_r (emit (Sleep 5)) (pure l'')))))"
  proof (cases b)
    case None
    then show ?thesis by (simp add: step_commits_pure)
  next
    case (Some p)
    obtain l1 s where p: "p = (l1, s)" by (cases p)
    from b Some p have "last_commit_time l1 = last_commit_time l"
      by (auto simp add: pure_def split: if_splits dest: gps_branch_last_commit_time)
    with measurement_step_commits [of ce l1 h g r s]
    show ?thesis by (simp add: Some p step_commits_status_line)
  qed
qed

lemma step_commits_nil:
  "commits tr = [] \<Longrightarrow> (\<And>l'. out = Return l' \<Longrightarrow> last_commit_time l' = t) \<Longrightarrow>
   step_commits ce t tr out"
  by (cases out) (simp_all add: step_commits_def)

lemma step_commits_raise_nil: "step_commits ce t tr (Raise e) \<Longrightarrow> commits tr = []"
  by (simp add: step_commits_def split: list.splits)

lemma cycle_step_commits:
  "step_commits ce (last_commit_time l) (fst (cycle n rc h se ce l)) (snd (cycle n rc h se ce l))"
proof -
  let ?l = "l\<lparr>counter := counter l + 1\<rparr>"
  let ?stop = "stop_all se n (db h) (gps_managers h)"
  have body: "step_commits ce (last_commit_time l) (fst (cycle_body n rc h ce ?l)) (snd (cycle_body n rc h ce ?l))"
    using cycle_body_step_commits [of ce ?l n rc h] by simp
  obtain tr out where c: "cycle_body n rc h ce ?l = (tr, out)" by (cases "cycle_body n rc h ce ?l")
  show ?thesis
  proof (cases out)
    case (Return l')
    with c body show ?thesis by (simp add: cycle_def)
  next
    case Pending
    with c body show ?thesis by (simp add: cycle_def)
  next
    case (Raise e)
    with c body have nil: "commits tr = []"
      by (auto dest: step_commits_raise_nil)
    show ?thesis
    proof (cases "e = KeyboardInterrupt")
      case True
      let ?X = "seq_r (emit (Log ProgramInterrupted)) (seq_r ?stop (pure ?l))"
      have cyc: "cycle n rc h se ce l = (tr @ fst ?X, snd ?X)"
        using c Raise True by (simp add: cycle_def)
      have "commits (fst ?X) = []"
        by (intro commits_intros) simp_all
      moreover have "last_commit_time l' = last_commit_time l" if "snd ?X = Return l'" for l'
        using that by (auto simp add: snd_seq_r_Return pure_def)
      ultimately show ?thesis
        unfolding cyc using nil by (intro step_commits_nil) simp_all
    next
      case False
      show ?thesis
      proof (cases "is_Exception e")
        case True
        let ?X = "seq_r (emit (Log UnhandledException)) (seq_r ?stop (raise e :: locals effect))"
        have cyc: "cycle n rc h se ce l = (tr @ fst ?X, snd ?X)"
          using c Raise True False by (simp add: cycle_def)
        have "commits (fst ?X) = []"
          by (intro commits_intros) simp_all
        moreover have "snd ?X \<noteq> Return l'" for l'
          by (simp add: snd_seq_r_Return raise_def)
        ultimately show ?thesis
          unfolding cyc using nil by (intro step_commits_nil) simp_all
      next
        case nonexc: False
        from c Raise False nonexc have "cycle n rc h se ce l = (tr, Raise e)"
          by (simp add: cycle_def)
        with nil show ?thesis by simp
      qed
    qed
  qed
qed

lemma main_loop_heartbeats:
  "clock_ordered t ces \<Longrightarrow> last_commit_time l \<le> t \<Longrightarrow>
   sorted_wrt (\<lambda>a b. rec_spec_data b = None \<longrightarrow> rec_trigger_id a + 60 \<le> rec_trigger_id b)
     (commits (fst (main_loop n rc h se ces l)))
   \<and> (\<forall>x \<in> set (commits (fst (main_loop n rc h se ces l))).
        last_commit_time l \<le> rec_trigger_id x
        \<and> (rec_spec_data x = None \<longrightarrow> last_commit_time l + 60 \<le> rec_trigger_id x))"
proof (induction ces arbitrary: t l)
  case Nil
  then show ?case by simp
next
  case (Cons ce ces)
  let ?Q = "\<lambda>a b. rec_spec_data b = None \<longrightarrow> rec_trigger_id a + 60 \<le> rec_trigger_id b"
  from Cons.prems have ord: "t \<le> now_trigger ce" "now_trigger ce \<le> now_check ce"
    "now_check ce \<le> now_no_trigger ce" "now_no_trigger ce \<le> now_commit ce"
    and rest: "clock_ordered (now_commit ce) ces" by simp_all
  obtain tr out where c: "cycle n rc h se ce l = (tr, out)" by (cases "cycle n rc h se ce l")
  have step: "step_commits ce (last_commit_time l) tr out"
    using cycle_step_commits [of ce l n rc h se] c by simp
  have first: "\<forall>x \<in> set (commits tr). last_commit_time l \<le> rec_trigger_id x
        \<and> rec_trigger_id x \<le> now_commit ce
        \<and> (rec_spec_data x = None \<longrightarrow> last_commit_time l + 60 \<le> rec_trigger_id x)"
    and one: "sorted_wrt ?Q (commits tr)"
    using step ord Cons.prems(2)
    by (auto simp add: step_commits_def split: list.splits outcome.splits if_splits)
  show ?case
  proof (cases out)
    case (Return l')
    from step Return ord Cons.prems(2) have l': "last_commit_time l' \<le> now_commit ce"
      and low: "last_commit_time l \<le> last_commit_time l'"
      and hi: "\<forall>x \<in> set (commits tr). rec_trigger_id x \<le> last_commit_time l'"
      by (auto simp add: step_commits_def split: list.splits if_splits)
    from Cons.IH [OF rest l'] have ih1: "sorted_wrt ?Q (commits (fst (main_loop n rc h se ces l')))"
      and ih2: "\<forall>x \<in> set (commits (fst (main_loop n rc h se ces l'))).
        last_commit_time l' \<le> rec_trigger_id x
        \<and> (rec_spec_data x = None \<longrightarrow> last_commit_time l' + 60 \<le> rec_trigger_id x)"
      by simp_all
    have tr_eq: "commits (fst (main_loop n rc h se (ce # ces) l))
        = commits tr @ commits (fst (main_loop n rc h se ces l'))"
      using c Return by (simp split: prod.splits)
    show ?thesis
      unfolding tr_eq sorted_wrt_append using one ih1 ih2 first low hi by fastforce
  next
    case (Raise e)
    with c have "commits (fst (main_loop n rc h se (ce # ces) l)) = commits tr" by simp
    with first one show ?thesis by auto
  next
    case Pending
    with c have "commits (fst (main_loop n rc h se (ce # ces) l)) = commits tr" by simp
    with first one show ?thesis by auto
  qed
qed


lemma commits_start_gps_managers [simp]:
  "commits (fst (start_gps_managers start_r acc ps)) = []"
  by (induction ps arbitrary: acc) (auto intro!: commits_intros)

lemma commits_init_all [simp]: "commits (fst (init_all n ie)) = []"
  unfolding init_all_def home_motor_def
  by (auto intro!: commits_intros)

lemma run_heartbeats:
  assumes "clock_ordered (now_start rc) ces"
  shows "sorted_wrt (\<lambda>a b. rec_spec_data b = None \<longrightarrow> rec_trigger_id a + 60 \<le> rec_trigger_id b)
     (commits (fst (run n rc ie se ces)))"
proof -
  obtain tr out where i: "init_all n ie = (tr, out)" by (cases "init_all n ie")
  have nil: "commits tr = []" using commits_init_all [of n ie] i by simp
  show ?thesis
  proof (cases out)
    case (Return h)
    have "last_commit_time (initial_locals rc) \<le> now_start rc" by (simp add: initial_locals_def)
    from main_loop_heartbeats [OF assms this, of n rc h se] i Return nil show ?thesis
      by (simp add: run_def eff_simps)
  next
    case (Raise e)
    with i nil show ?thesis by (simp add: run_def init_failure_def eff_simps)
  next
    case Pending
    with i nil show ?thesis by (simp add: run_def)
  qed
qed

section \<open>The measurement step\<close>

text \<open>
  C3. The claim: in an iteration whose gate is false, nothing is persisted and no I/O is
  done while less than 60 s have passed since \<^verbatim>\<open>last_commit_time\<close>; after 60 s or more
  exactly one metadata-only record is persisted and \<^verbatim>\<open>last_commit_time\<close> advances; so
  a run with the gate always false persists at most one metadata-only record per
  rolling window of 60 s.

  The code, in two runs from the start of the program. Without a database
  (\<^verbatim>\<open>db_dict['used']\<close> false, line 359), a first iteration with the gate false, 65 s
  after line 222: nothing is persisted. With a database and the gate always false,
  when the system clock is set back by 70 s after the first iteration and forward again
  after the second: line 347 compares in absolute value, each of the three iterations
  persists a metadata-only record, and the first and the third carry times 11 s apart.
\<close>

theorem heartbeat_without_db_or_clock_back:
  "commits (fst (run 10 rc_ok (init_ok\<lparr>db_init_r := Return \<lparr>used = False\<rparr>\<rparr>) stop_ok [gated_at 1065])) = []
   \<and> snd (run 10 rc_ok (init_ok\<lparr>db_init_r := Return \<lparr>used = False\<rparr>\<rparr>) stop_ok [gated_at 1065]) = Pending
   \<and> map rec_trigger_id
        (commits (fst (run 10 rc_ok init_ok stop_ok [gated_at 1065, gated_at 1001, gated_at 1076])))
       = [1065, 1001, 1076]
   \<and> map rec_spec_data
        (commits (fst (run 10 rc_ok init_ok stop_ok [gated_at 1065, gated_at 1001, gated_at 1076])))
       = [None, None, None]"
  by (simp add: run_def init_all_def init_ok_def eff_simps gps_ports_def home_motor_def
      cycle_def cycle_body_def gps_branch_def format_status_def measurement_def heartbeat_def
      gated_at_def cycle_ok_def initial_locals_def rc_ok_def)

text \<open>The measurement step and the iterations that end without one, with the gate
  false.\<close>

lemma measurement_gate_false_step:
  assumes "motor_ready l = Some mr" and "\<not> (g \<and> mr \<and> r \<and> s)" and "2 \<le> length (gps_managers h)"
  shows "(\<bar>now_check ce - last_commit_time l\<bar> < 60 \<longrightarrow> measurement h ce l g r s = ([], Return l))
    \<and> (60 \<le> \<bar>now_check ce - last_commit_time l\<bar> \<and> \<not> used (db h) \<longrightarrow>
         measurement h ce l g r s
           = ([CreateGpsDict (gps_managers h ! 0), CreateGpsDict (gps_managers h ! 1)], Return l))
    \<and> (60 \<le> \<bar>now_check ce - last_commit_time l\<bar> \<and> used (db h)
         \<and> solar_az l = Some az \<and> solar_el l = Some el \<and> commit_db_r ce = Return i \<longrightarrow>
        measurement h ce l g r s =
          ([CreateGpsDict (gps_managers h ! 0), CreateGpsDict (gps_managers h ! 1),
            CommitDb \<lparr>rec_gps1 = gps_state ce (gps_managers h ! 0),
                      rec_gps2 = gps_state ce (gps_managers h ! 1),
                      rec_trigger_id = now_no_trigger ce, rec_bearing = ship_bearing_mean l,
                      rec_solar_az = az, rec_solar_el = el, rec_spec_data = None\<rparr>],
           Return (l\<lparr>last_commit_time := now_commit ce\<rparr>)))
    \<and> (check_gps_r ce = Return False \<and> check_sensors_r ce = Return r
         \<and> \<bar>now_check ce - last_commit_time l\<bar> < 60 \<longrightarrow>
        cycle_body n rc h ce l = ([CheckGps, CheckSensors, Log StatusLine, Sleep 5], Return l))
    \<and> (check_gps_r ce = Return False \<and> check_sensors_r ce = Return r
         \<and> 60 \<le> \<bar>now_check ce - last_commit_time l\<bar> \<and> used (db h)
         \<and> solar_az l = Some az \<and> solar_el l = Some el \<and> commit_db_r ce = Return i \<longrightarrow>
        cycle_body n rc h ce l =
          ([CheckGps, CheckSensors,
            CreateGpsDict (gps_managers h ! 0), CreateGpsDict (gps_managers h ! 1),
            CommitDb \<lparr>rec_gps1 = gps_state ce (gps_managers h ! 0),
                      rec_gps2 = gps_state ce (gps_managers h ! 1),
                      rec_trigger_id = now_no_trigger ce, rec_bearing = ship_bearing_mean l,
                      rec_solar_az = az, rec_solar_el = el, rec_spec_data = None\<rparr>,
            Log StatusLine, Sleep 5],
           Return (l\<lparr>last_commit_time := now_commit ce\<rparr>)))
    \<and> (check_gps_r ce = Return True \<and> check_sensors_r ce = Return r
         \<and> get_motor_pos_r ce = Return None \<longrightarrow>
        cycle_body n rc h ce l = ([CheckGps, CheckSensors, GetMotorPos, Sleep 5], Return l))"
  using assms
  by (auto simp add: cycle_body_def gps_branch_def measurement_def heartbeat_def eff_simps)

text \<open>
  C3, amended. In an iteration that reaches line 325 with \<^verbatim>\<open>motor_ready\<close> assigned, at
  least two GPS managers and the gate false: when the reading of the clock differs from
  \<^verbatim>\<open>last_commit_time\<close> by less than 60 s (in absolute value), the measurement step does
  nothing; when it differs by 60 s or more and no database is in use, the two GPS
  snapshots are taken, nothing is persisted and \<^verbatim>\<open>last_commit_time\<close> is unchanged;
  when it differs by 60 s or more, a database is in use and the commit returns, exactly
  one record is persisted, with \<^verbatim>\<open>spec_data = None\<close>, the two GPS snapshots, the
  bearing and the solar angles, and \<^verbatim>\<open>last_commit_time\<close> becomes the reading taken
  after the commit. For an iteration in which \<^verbatim>\<open>check_gps\<close> answers false the whole
  body is given; an iteration in which it answers true and the motor position is
  unreadable ends at the \<^verbatim>\<open>continue\<close> of line 265 and persists nothing. Over any run
  whose clock readings never decrease, with the gate false or not, every metadata-only
  record carries a time at least 60 s after the time of every record persisted before
  it (and after the reading of line 222): at most one metadata-only record per rolling
  window of 60 s. This is stated for the main loop from any locals and for the whole
  program.
\<close>

theorem heartbeat_rate_limit:
  "(motor_ready l = Some mr \<and> \<not> (g \<and> mr \<and> r \<and> s) \<and> 2 \<le> length (gps_managers h) \<longrightarrow>
      (\<bar>now_check ce - last_commit_time l\<bar> < 60 \<longrightarrow> measurement h ce l g r s = ([], Return l))
    \<and> (60 \<le> \<bar>now_check ce - last_commit_time l\<bar> \<and> \<not> used (db h) \<longrightarrow>
         measurement h ce l g r s
           = ([CreateGpsDict (gps_managers h ! 0), CreateGpsDict (gps_managers h ! 1)], Return l))
    \<and> (60 \<le> \<bar>now_check ce - last_commit_time l\<bar> \<and> used (db h)
         \<and> solar_az l = Some az \<and> solar_el l = Some el \<and> commit_db_r ce = Return i \<longrightarrow>
        measurement h ce l g r s =
          ([CreateGpsDict (gps_managers h ! 0), CreateGpsDict (gps_managers h ! 1),
            CommitDb \<lparr>rec_gps1 = gps_state ce (gps_managers h ! 0),
                      rec_gps2 = gps_state ce (gps_managers h ! 1),
                      rec_trigger_id = now_no_trigger ce, rec_bearing = ship_bearing_mean l,
                      rec_solar_az = az, rec_solar_el = el, rec_spec_data = None\<rparr>],
           Return (l\<lparr>last_commit_time := now_commit ce\<rparr>)))
    \<and> (check_gps_r ce = Return False \<and> check_sensors_r ce = Return r
         \<and> \<bar>now_check ce - last_commit_time l\<bar> < 60 \<longrightarrow>
        cycle_body n rc h ce l = ([CheckGps, CheckSensors, Log StatusLine, Sleep 5], Return l))
    \<and> (check_gps_r ce = Return False \<and> check_sensors_r ce = Return r
         \<and> 60 \<le> \<bar>now_check ce - last_commit_time l\<bar> \<and> used (db h)
         \<and> solar_az l = Some az \<and> solar_el l = Some el \<and> commit_db_r ce = Return i \<longrightarrow>
        cycle_body n rc h ce l =
          ([CheckGps, CheckSensors,
            CreateGpsDict (gps_managers h ! 0), CreateGpsDict (gps_managers h ! 1),
            CommitDb \<lparr>rec_gps1 = gps_state ce (gps_managers h ! 0),
                      rec_gps2 = gps_state ce (gps_managers h ! 1),
                      rec_trigger_id = now_no_trigger ce, rec_bearing = ship_bearing_mean l,
                      rec_solar_az = az, rec_solar_el = el, rec_spec_data = None\<rparr>,
            Log StatusLine, Sleep 5],
           Return (l\<lparr>last_commit_time := now_commit ce\<rparr>)))
    \<and> (check_gps_r ce = Return True \<and> check_sensors_r ce = Return r
         \<and> get_motor_pos_r ce = Return None \<longrightarrow>
        cycle_body n rc h ce l = ([CheckGps, CheckSensors, GetMotorPos, Sleep 5], Return l)))
   \<and> (clock_ordered t ces \<and> last_commit_time l \<le> t \<longrightarrow>
        sorted_wrt (\<lambda>a b. rec_spec_data b = None \<longrightarrow> rec_trigger_id a + 60 \<le> rec_trigger_id b)
          (commits (fst (main_loop n rc h se ces l)))
      \<and> (\<forall>x \<in> set (commits (fst (main_loop n rc h se ces l))).
            rec_spec_data x = None \<longrightarrow> last_commit_time l + 60 \<le> rec_trigger_id x))
   \<and> (clock_ordered (now_start rc) ces \<longrightarrow>
        sorted_wrt (\<lambda>a b. rec_spec_data b = None \<longrightarrow> rec_trigger_id a + 60 \<le> rec_trigger_id b)
          (commits (fst (run n rc ie se ces))))"
  (is "(?H1 \<longrightarrow> ?S1) \<and> (?H2 \<longrightarrow> ?S2) \<and> (?H3 \<longrightarrow> ?S3)")
proof (rule conjI [OF _ conjI])
  show "?H1 \<longrightarrow> ?S1"
  proof
    assume ?H1
    then have a: "motor_ready l = Some mr" "\<not> (g \<and> mr \<and> r \<and> s)" "2 \<le> length (gps_managers h)"
      by simp_all
    show ?S1 by (rule measurement_gate_false_step [OF a])
  qed
next
  show "?H2 \<longrightarrow> ?S2"
  proof
    assume ?H2
    then have o: "clock_ordered t ces" and b: "last_commit_time l \<le> t" by simp_all
    from main_loop_heartbeats [OF o b, of n rc h se] show ?S2 by simp
  qed
next
  show "?H3 \<longrightarrow> ?S3"
    using run_heartbeats by blast
qed

theorem heartbeat_rate_limit_witness:
  "cycle_body 10 rc_ok handles_ok (cycle_ok\<lparr>check_gps_r := Return False, now_check := 1030\<rparr>) locals_ok
     = ([CheckGps, CheckSensors, Log StatusLine, Sleep 5], Return locals_ok)
   \<and> cycle_body 10 rc_ok handles_ok
        (cycle_ok\<lparr>check_gps_r := Return False, now_check := 1100, now_no_trigger := 1101, now_commit := 1102\<rparr>)
        locals_ok
     = ([CheckGps, CheckSensors, CreateGpsDict 1, CreateGpsDict 2,
         CommitDb \<lparr>rec_gps1 = fix_ok, rec_gps2 = fix_ok, rec_trigger_id = 1101, rec_bearing = Some 90,
                   rec_solar_az = 180, rec_solar_el = 40, rec_spec_data = None\<rparr>,
         Log StatusLine, Sleep 5],
        Return (locals_ok\<lparr>last_commit_time := 1102\<rparr>))
   \<and> clock_ordered (now_start rc_ok) [gated_at 1065, gated_at 1130]
   \<and> sorted_wrt (\<lambda>a b. rec_spec_data b = None \<longrightarrow> rec_trigger_id a + 60 \<le> rec_trigger_id b)
        (commits (fst (run 10 rc_ok init_ok stop_ok [gated_at 1065, gated_at 1130])))"
  using heartbeat_rate_limit [where l = locals_ok and mr = True and g = False and r = True and s = False
      and h = handles_ok and ce = "cycle_ok\<lparr>check_gps_r := Return False, now_check := 1030\<rparr>"
      and n = 10 and rc = rc_ok and ces = "[gated_at 1065, gated_at 1130]"
      and ie = init_ok and se = stop_ok and t = 1000]
    heartbeat_rate_limit [where l = locals_ok and mr = True and g = False and r = True and s = False
      and h = handles_ok and az = 180 and el = 40 and i = 1 and n = 10 and rc = rc_ok
      and ce = "cycle_ok\<lparr>check_gps_r := Return False, now_check := 1100, now_no_trigger := 1101,
                        now_commit := 1102\<rparr>"
      and ces = "[]" and t = 1006]
  by (simp add: locals_ok_def rc_ok_def handles_ok_def cycle_ok_def gated_at_def)

text \<open>
  C4. The claim: in an iteration whose gate is true the program mints the trigger id,
  snapshots both GPS fixes, samples all channels with that id, persists a full record
  and sets \<^verbatim>\<open>last_commit_time\<close>: exactly one record is persisted.

  The code without a database (line 340), in the first iteration of a run, gate true:
  the channels are sampled and nothing is persisted.
\<close>

theorem trigger_not_persisted_without_db:
  "commits (fst (run 10 rc_ok (init_ok\<lparr>db_init_r := Return \<lparr>used = False\<rparr>\<rparr>) stop_ok [cycle_ok])) = []
   \<and> SampleAll 1005 \<in> set (fst (run 10 rc_ok (init_ok\<lparr>db_init_r := Return \<lparr>used = False\<rparr>\<rparr>) stop_ok [cycle_ok]))
   \<and> snd (run 10 rc_ok (init_ok\<lparr>db_init_r := Return \<lparr>used = False\<rparr>\<rparr>) stop_ok [cycle_ok]) = Pending"
  by (simp add: run_def init_all_def init_ok_def eff_simps gps_ports_def home_motor_def
      cycle_def cycle_body_def gps_branch_def format_status_def measurement_def full_trigger_def
      splice_def cycle_ok_def initial_locals_def rc_ok_def)

text \<open>
  C4, amended. In an iteration whose gate is true, with at least two GPS managers and
  \<^verbatim>\<open>sample_all\<close> returning no more channel ids than integration times and spectra: the
  trigger id is the reading of the clock of line 327, both GPS managers are snapshot and
  \<^verbatim>\<open>sample_all\<close> is called with that id; when a database is in use and the commit
  returns, exactly one record is persisted, with that trigger id, both GPS snapshots and
  one row per channel id (a list, not \<^verbatim>\<open>None\<close>), and \<^verbatim>\<open>last_commit_time\<close> becomes the
  reading taken after the commit; when no database is in use nothing is persisted and
  \<^verbatim>\<open>last_commit_time\<close> is unchanged. The third part is the whole body of such an
  iteration when the motor is within the step threshold of its target; the bearing is
  then a number, or line 285 would have raised.
\<close>

theorem measurement_gate_true:
  "(motor_ready l = Some mr \<and> g \<and> mr \<and> r \<and> s \<and> 2 \<le> length (gps_managers h)
      \<and> sample_all_r ce = Return (tid, specs, sids, itimes)
      \<and> length sids \<le> length itimes \<and> length sids \<le> length specs
      \<and> solar_az l = Some az \<and> solar_el l = Some el
      \<and> used (db h) \<and> commit_db_r ce = Return i \<longrightarrow>
        measurement h ce l g r s =
          ([CreateGpsDict (gps_managers h ! 0), CreateGpsDict (gps_managers h ! 1),
            SampleAll (now_trigger ce),
            CommitDb \<lparr>rec_gps1 = gps_state ce (gps_managers h ! 0),
                      rec_gps2 = gps_state ce (gps_managers h ! 1),
                      rec_trigger_id = now_trigger ce, rec_bearing = ship_bearing_mean l,
                      rec_solar_az = az, rec_solar_el = el,
                      rec_spec_data = Some (map (\<lambda>n. [sids ! n, itimes ! n, specs ! n]) [0..<length sids])\<rparr>],
           Return (l\<lparr>trigger_id := Some (now_trigger ce), last_commit_time := now_commit ce\<rparr>)))
    \<and> (motor_ready l = Some mr \<and> g \<and> mr \<and> r \<and> s \<and> 2 \<le> length (gps_managers h)
      \<and> sample_all_r ce = Return (tid, specs, sids, itimes)
      \<and> length sids \<le> length itimes \<and> length sids \<le> length specs
      \<and> \<not> used (db h) \<longrightarrow>
        measurement h ce l g r s
          = ([CreateGpsDict (gps_managers h ! 0), CreateGpsDict (gps_managers h ! 1),
              SampleAll (now_trigger ce)],
             Return (l\<lparr>trigger_id := Some (now_trigger ce)\<rparr>)))
    \<and> (check_gps_r ce = Return True \<and> check_sensors_r ce = Return True
      \<and> 2 \<le> length (gps_managers h)
      \<and> get_motor_pos_r ce = Return (Some pos)
      \<and> (if use_fixed_bearing rc then ship_bearing_mean l else mean_bearing ce) = Some b
      \<and> calculate_positions_r ce = Return (az, el, target)
      \<and> check_sun_r ce = Return True
      \<and> \<bar>target - pos\<bar> \<le> step_thresh (motor h)
      \<and> sample_all_r ce = Return (tid, specs, sids, itimes)
      \<and> length sids \<le> length itimes \<and> length sids \<le> length specs
      \<and> used (db h) \<and> commit_db_r ce = Return i \<longrightarrow>
        cycle_body n rc h ce l =
          ([CheckGps, CheckSensors, GetMotorPos, CalculatePositions, Log SunInfo, CheckSun,
            CreateGpsDict (gps_managers h ! 0), CreateGpsDict (gps_managers h ! 1),
            SampleAll (now_trigger ce),
            CommitDb \<lparr>rec_gps1 = gps_state ce (gps_managers h ! 0),
                      rec_gps2 = gps_state ce (gps_managers h ! 1),
                      rec_trigger_id = now_trigger ce, rec_bearing = Some b,
                      rec_solar_az = az, rec_solar_el = el,
                      rec_spec_data = Some (map (\<lambda>n. [sids ! n, itimes ! n, specs ! n]) [0..<length sids])\<rparr>,
            Log StatusLine, Sleep 5],
           Return (l\<lparr>ship_bearing_mean := Some b, solar_az := Some az, solar_el := Some el,
                      motor_ready := Some True, trigger_id := Some (now_trigger ce),
                      last_commit_time := now_commit ce\<rparr>)))"
  by (auto simp add: cycle_body_def gps_branch_def format_status_def measurement_def full_trigger_def
      splice_def eff_simps)

theorem measurement_gate_true_witness:
  "cycle_body 10 rc_ok handles_ok cycle_ok (initial_locals rc_ok) =
     ([CheckGps, CheckSensors, GetMotorPos, CalculatePositions, Log SunInfo, CheckSun,
       CreateGpsDict 1, CreateGpsDict 2, SampleAll 1005,
       CommitDb \<lparr>rec_gps1 = fix_ok, rec_gps2 = fix_ok, rec_trigger_id = 1005, rec_bearing = Some 90,
                 rec_solar_az = 180, rec_solar_el = 40,
                 rec_spec_data = Some [[''sid1'', ''128'', ''spec1''], [''sid2'', ''256'', ''spec2'']]\<rparr>,
       Log StatusLine, Sleep 5],
      Return ((initial_locals rc_ok)\<lparr>ship_bearing_mean := Some 90, solar_az := Some 180,
                solar_el := Some 40, motor_ready := Some True, trigger_id := Some 1005,
                last_commit_time := 1006\<rparr>))"
  using measurement_gate_true [where l = "initial_locals rc_ok" and h = handles_ok and ce = cycle_ok
      and tid = 1005 and specs = "[''spec1'', ''spec2'']" and sids = "[''sid1'', ''sid2'']"
      and itimes = "[''128'', ''256'']" and az = 180 and el = 40 and i = 1 and pos = 0 and target = 0
      and n = 10 and rc = rc_ok and b = 90]
  by (simp add: rc_ok_def handles_ok_def cycle_ok_def upt_rec [of 0] upt_rec [of 1] upt_rec [of 2])

section \<open>GPS snapshots\<close>

text \<open>
  C10. Every part of an iteration that snapshots the GPS state (the \<^verbatim>\<open>gps_ready\<close>
  branch, the full trigger, the metadata-only record, the last one also when
  \<^verbatim>\<open>gps_ready\<close> is false) indexes \<^verbatim>\<open>gps_managers[0]\<close> and \<^verbatim>\<open>gps_managers[1]\<close>
  without a length guard: with fewer than two GPS managers each of them raises
  \<^verbatim>\<open>IndexError\<close>, and so does the body of an iteration that enters one.
\<close>

theorem gps_snapshot_needs_two_managers:
  assumes "length (gps_managers h) < 2"
  shows "snd (gps_branch n rc h ce l) = Raise IndexError
    \<and> snd (full_trigger h ce l) = Raise IndexError
    \<and> snd (heartbeat h ce l) = Raise IndexError
    \<and> (check_gps_r ce = Return True \<and> check_sensors_r ce = Return r \<longrightarrow>
         snd (cycle_body n rc h ce l) = Raise IndexError)
    \<and> (check_gps_r ce = Return False \<and> check_sensors_r ce = Return r \<and> motor_ready l = Some mr
         \<and> 60 \<le> \<bar>now_check ce - last_commit_time l\<bar> \<longrightarrow>
         snd (cycle_body n rc h ce l) = Raise IndexError)"
  using assms
  by (auto simp add: cycle_body_def measurement_def gps_branch_def full_trigger_def heartbeat_def eff_simps)

theorem gps_snapshot_needs_two_managers_witness:
  "snd (cycle_body 10 rc_ok (handles_ok\<lparr>gps_managers := [1]\<rparr>) cycle_ok (initial_locals rc_ok))
     = Raise IndexError
   \<and> snd (cycle_body 10 rc_ok (handles_ok\<lparr>gps_managers := [1]\<rparr>)
            (cycle_ok\<lparr>check_gps_r := Return False, now_check := 1100\<rparr>) locals_ok)
     = Raise IndexError"
  using gps_snapshot_needs_two_managers [where h = "handles_ok\<lparr>gps_managers := [1]\<rparr>" and n = 10
      and rc = rc_ok and ce = cycle_ok and l = "initial_locals rc_ok" and r = True]
    gps_snapshot_needs_two_managers [where h = "handles_ok\<lparr>gps_managers := [1]\<rparr>" and n = 10
      and rc = rc_ok and ce = "cycle_ok\<lparr>check_gps_r := Return False, now_check := 1100\<rparr>"
      and l = locals_ok and r = True and mr = True]
  by (simp add: handles_ok_def cycle_ok_def locals_ok_def initial_locals_def rc_ok_def)

text \<open>With two managers or more both reads succeed.\<close>

lemma index_two_managers:
  "2 \<le> length gms \<Longrightarrow> index gms 0 = pure (gms ! 0) \<and> index gms 1 = pure (gms ! 1)"
  by (auto simp add: index_def)

section \<open>Polling the motor\<close>


text \<open>An unreadable moving flag keeps the loop polling: the next round runs with
  \<^verbatim>\<open>moving = True\<close>, as after a flag that says "moving".\<close>

lemma poll_motor_unreadable_flag:
  "motor_moving_r pe k = Return (None, p) \<Longrightarrow> motor_moving_r pe' k = Return (Some True, p') \<Longrightarrow>
   clock pe = clock pe' \<Longrightarrow> (\<forall>j > k. motor_moving_r pe j = motor_moving_r pe' j) \<Longrightarrow>
   poll_motor n pe msg i t0 k moving = poll_motor n pe' msg i t0 k moving"
proof (induction n arbitrary: k moving p p')
  case 0
  then show ?case by simp
next
  case (Suc n)
  have tail: "poll_motor n pe msg i t0 (Suc k) b = poll_motor n pe' msg i t0 (Suc k) b" for b
    using Suc.prems(3,4)
  proof (induction n arbitrary: k b)
    case 0
    then show ?case by simp
  next
    case (Suc n)
    from Suc.prems have eq: "motor_moving_r pe (Suc k) = motor_moving_r pe' (Suc k)" by simp
    from Suc.prems have "\<forall>j>Suc k. motor_moving_r pe j = motor_moving_r pe' j" by simp
    from Suc.IH [OF Suc.prems(1) this] eq Suc.prems(1) show ?case
      by (simp split: outcome.splits)
  qed
  from Suc.prems tail show ?case by simp
qed

lemma cpu_poll_pending:
  "real k + real n < 5000 \<Longrightarrow>
   poll_motor n cpu_poll msg i 0 k True
     = (concat (replicate n [MotorMoving, Log msg, Sleep i]), Pending)"
proof (induction n arbitrary: k)
  case 0
  then show ?case by simp
next
  case (Suc n)
  from Suc.prems have "real (Suc k) + real n < 5000" by simp
  from Suc.IH [OF this] Suc.prems show ?case
    by (simp add: cpu_poll_def eff_simps)
qed

lemma slept_replicate: "slept (concat (replicate n [MotorMoving, Log msg, Sleep i])) = real n * i"
  by (induction n) (simp_all add: algebra_simps)

lemma slept_append: "slept (xs @ ys) = slept xs + slept ys"
  by (induction xs rule: slept.induct) simp_all

text \<open>
  C8. The claim: each move-and-poll loop is bounded by elapsed wall-clock time, not by
  an iteration count; for every behaviour of the device it returns without raising
  after at most the timeout (5 s for homing) plus one poll interval, an unreadable
  moving flag counting as "still moving".

  The code measures the timeout with \<^verbatim>\<open>time.clock()\<close>, the processor time of the
  process on Unix, which does not advance while the loop sleeps. With a moving flag
  that stays unreadable and one millisecond of processor time per poll, the homing
  loop is still polling after ten polls and more than 10 s of sleep, and the tracking
  loop after ten polls and 20 s of sleep.
\<close>

theorem poll_motor_processor_time_unbounded:
  "snd (init_all 10 (init_ok\<lparr>home_motor_pos_r := Return (Some 500), homing := cpu_poll\<rparr>)) = Pending
   \<and> 10 < slept (fst (init_all 10 (init_ok\<lparr>home_motor_pos_r := Return (Some 500), homing := cpu_poll\<rparr>)))
   \<and> snd (poll_motor 10 cpu_poll MovingMotor 2 (clock cpu_poll 0) 1 True) = Pending
   \<and> slept (fst (poll_motor 10 cpu_poll MovingMotor 2 (clock cpu_poll 0) 1 True)) = 20"
proof -
  have t0: "clock cpu_poll 0 = 0" by (simp add: cpu_poll_def)
  have p: "poll_motor 10 cpu_poll msg i 0 (Suc 0) True
      = (concat (replicate 10 [MotorMoving, Log msg, Sleep i]), Pending)" for msg i
    by (rule cpu_poll_pending) simp
  have "init_all 10 (init_ok\<lparr>home_motor_pos_r := Return (Some 500), homing := cpu_poll\<rparr>)
      = ([DbInit, InitGpio 0, InitLogger, Log StartedLogging, Comports, MotorInit, GpsInit, RadInit,
          SampleInit, GpsManagerStart 1, GpsManagerStart 2, Sleep 0.1, GpsCheckerStart, GetMotorPos,
          Log HomingMotor, ReturnHome] @ concat (replicate 10 [MotorMoving, Log HomingPoll, Sleep 1]),
         Pending)"
    by (simp add: init_all_def init_ok_def eff_simps gps_ports_def home_motor_def t0 p)
  then show ?thesis
    by (simp add: t0 p slept_append slept_replicate)
qed

section \<open>Failures of the initialisation\<close>





end
